theory Spec2Isabelle
  imports Main
begin

section \<open>Strings and numbers of the source language\<close>

text \<open>
  The action is a TypeScript program (\<^verbatim>\<open>src/index.ts\<close>). Its strings are modelled as
  \<^typ>\<open>string\<close>, one \<^typ>\<open>char\<close> per code unit in the range 0..255. Every Number the
  program computes is a non-negative integer: the value of a run of decimal digits, or
  such a value plus one. Numbers are modelled as \<^typ>\<open>nat\<close> with exact arithmetic and
  exact decimal notation, which is what the source computes as long as the values stay
  below \<open>2^53\<close>; the rounding of larger Numbers is outside the model.
\<close>

definition isDigit :: "char \<Rightarrow> bool" where
  \<comment> \<open>the regular-expression class \<^verbatim>\<open>\d\<close>\<close>
  "isDigit c = (c \<in> set ''0123456789'')"

definition isWhiteSpace :: "char \<Rightarrow> bool" where
  \<comment> \<open>the code units below 256 that \<^verbatim>\<open>String.prototype.trim\<close> strips:
      TAB, LF, VT, FF, CR, SPACE and NBSP\<close>
  "isWhiteSpace c =
     (c \<in> set [CHR 0x09, CHR 0x0A, CHR 0x0B, CHR 0x0C, CHR 0x0D, CHR 0x20, CHR 0xA0])"

definition isLineTerminator :: "char \<Rightarrow> bool" where
  \<comment> \<open>the code units below 256 that the regular-expression atom \<^verbatim>\<open>.\<close> does not match\<close>
  "isLineTerminator c = (c \<in> set [CHR 0x0A, CHR 0x0D])"

definition trim :: "string \<Rightarrow> string" where
  \<comment> \<open>\<^verbatim>\<open>String.prototype.trim\<close>: white space removed at both ends\<close>
  "trim s = rev (dropWhile isWhiteSpace (rev (dropWhile isWhiteSpace s)))"

definition upperChar :: "char \<Rightarrow> string" where
  \<comment> \<open>upper-casing of one code unit: ASCII letters, the Latin-1 letters, and sharp s,
      which becomes two letters. The upper-case forms of 0xB5 and 0xFF lie above 255
      and are no ASCII letters; the two units are kept as they are.\<close>
  "upperChar c =
     (case map_of (zip ''abcdefghijklmnopqrstuvwxyz'' ''ABCDEFGHIJKLMNOPQRSTUVWXYZ'') c of
        Some u \<Rightarrow> [u]
      | None \<Rightarrow>
         (let n = (of_char c :: nat) in
          if n = 223 then ''SS''
          else if 224 \<le> n \<and> n \<le> 254 \<and> n \<noteq> 247 then [char_of (n - 32)]
          else [c]))"

definition toUpperCase :: "string \<Rightarrow> string" where
  "toUpperCase s = concat (map upperChar s)"

definition digitVal :: "char \<Rightarrow> nat" where
  "digitVal c = of_char c - 48"

definition digitChar :: "nat \<Rightarrow> char" where
  \<comment> \<open>the digit of a value below ten\<close>
  "digitChar d = ''0123456789'' ! d"

definition toNumber :: "string \<Rightarrow> nat" where
  \<comment> \<open>unary \<^verbatim>\<open>+\<close> applied to a run of decimal digits\<close>
  "toNumber ds = foldl (\<lambda>n c. 10 * n + digitVal c) 0 ds"

fun numToString :: "nat \<Rightarrow> string" where
  \<comment> \<open>a Number in a template literal: its decimal digits, without padding\<close>
  "numToString n =
     (if n < 10 then [digitChar n] else numToString (n div 10) @ [digitChar (n mod 10)])"

declare numToString.simps [simp del]

section \<open>Version Resolver\<close>

record semver =
  major :: nat
  minor :: nat
  patch :: nat

definition isNumeral :: "string \<Rightarrow> bool" where
  \<comment> \<open>the strings that \<^verbatim>\<open>\d+\<close> matches as a whole\<close>
  "isNumeral ds = (ds \<noteq> [] \<and> list_all isDigit ds)"

definition digits1 :: "string \<Rightarrow> (string \<times> string) option" where
  \<comment> \<open>a greedy \<^verbatim>\<open>(\d+)\<close> at the start of the input: the group and the rest\<close>
  "digits1 s =
     (let d = takeWhile isDigit s in
      if d = [] then None else Some (d, dropWhile isDigit s))"

definition matchSemver :: "string \<Rightarrow> (string \<times> string \<times> string) option" where
  \<comment> \<open>\<^verbatim>\<open>s.match(SEMVER_RE)\<close> with \<^verbatim>\<open>SEMVER_RE = /^(\d+)\.(\d+)\.(\d+)$/\<close>:
      the three groups, or None for null\<close>
  "matchSemver s =
     (case digits1 s of
        None \<Rightarrow> None
      | Some (a, r1) \<Rightarrow>
         (case r1 of
            [] \<Rightarrow> None
          | x # r1' \<Rightarrow>
             if x \<noteq> CHR ''.'' then None
             else
               (case digits1 r1' of
                  None \<Rightarrow> None
                | Some (b, r2) \<Rightarrow>
                   (case r2 of
                      [] \<Rightarrow> None
                    | y # r2' \<Rightarrow>
                       if y \<noteq> CHR ''.'' then None
                       else
                         (case digits1 r2' of
                            None \<Rightarrow> None
                          | Some (c, r3) \<Rightarrow> if r3 = [] then Some (a, b, c) else None)))))"

definition parseSemver :: "string option \<Rightarrow> semver option" where
  \<comment> \<open>the argument is \<^verbatim>\<open>string | undefined | null\<close>: None stands for undefined and
      null; the empty string is falsy as well\<close>
  "parseSemver tag =
     (case tag of
        None \<Rightarrow> None
      | Some t \<Rightarrow>
         if t = [] then None
         else
           (case matchSemver (trim t) of
              None \<Rightarrow> None
            | Some (a, b, c) \<Rightarrow>
               Some \<lparr>major = toNumber a, minor = toNumber b, patch = toNumber c\<rparr>))"

datatype upgrade = MAJOR | MINOR | PATCH

definition normalizeUpgradeType :: "string option \<Rightarrow> upgrade" where
  \<comment> \<open>the argument is \<^verbatim>\<open>string | undefined\<close>; \<^verbatim>\<open>x || "PATCH"\<close> replaces undefined and the
      empty string\<close>
  "normalizeUpgradeType x =
     (let up = toUpperCase
                 (trim (case x of None \<Rightarrow> ''PATCH'' | Some s \<Rightarrow> if s = [] then ''PATCH'' else s)) in
      if up = ''MAJOR'' then MAJOR else if up = ''MINOR'' then MINOR else PATCH)"

definition formatSemver :: "semver \<Rightarrow> string" where
  "formatSemver s =
     numToString (major s) @ ''.'' @ numToString (minor s) @ ''.'' @ numToString (patch s)"

definition defaultBase :: semver where
  \<comment> \<open>the literal \<^verbatim>\<open>{ major: 0, minor: 1, patch: 0 }\<close> of both branches\<close>
  "defaultBase = \<lparr>major = 0, minor = 1, patch = 0\<rparr>"

definition nextMainVersion :: "string option \<Rightarrow> upgrade \<Rightarrow> semver" where
  \<comment> \<open>\<^verbatim>\<open>run\<close>, the branch for main: \<^verbatim>\<open>parsed\<close>, and \<^verbatim>\<open>next\<close> after the \<^verbatim>\<open>switch\<close> on the
      normalized upgrade type\<close>
  "nextMainVersion lastTag upgradeType =
     (let parsed = (case parseSemver lastTag of None \<Rightarrow> defaultBase | Some v \<Rightarrow> v) in
      case upgradeType of
        MAJOR \<Rightarrow> parsed\<lparr>major := major parsed + 1, minor := 0, patch := 0\<rparr>
      | MINOR \<Rightarrow> parsed\<lparr>minor := minor parsed + 1, patch := 0\<rparr>
      | PATCH \<Rightarrow> parsed\<lparr>patch := patch parsed + 1\<rparr>)"


definition matchDevPattern :: "semver \<Rightarrow> string \<Rightarrow> string option" where
  \<comment> \<open>\<^verbatim>\<open>s.match(devPattern)\<close>, where \<^verbatim>\<open>devPattern\<close> is
      \<^verbatim>\<open>^{major}\.{minor}\.{patch}-develop\.(\d+)$\<close> for the numbers of \<^verbatim>\<open>mainBase\<close>:
      the group, or None for null\<close>
  "matchDevPattern mainBase s =
     (let pre = numToString (major mainBase) @ ''.'' @ numToString (minor mainBase) @ ''.'' @
                numToString (patch mainBase) @ ''-develop.'';
          ds = drop (length pre) s
      in if take (length pre) s = pre \<and> isNumeral ds then Some ds else None)"

definition computeNextPreReleaseVersion :: "string option \<Rightarrow> string option \<Rightarrow> semver \<times> nat" where
  \<comment> \<open>\<^verbatim>\<open>run\<close>, the code for the other branches: \<^verbatim>\<open>mainBase\<close>, and \<^verbatim>\<open>build\<close> after
      \<^verbatim>\<open>build += 1\<close>; \<^verbatim>\<open>lastDevelopTag || ""\<close> replaces a missing tag\<close>
  "computeNextPreReleaseVersion lastMainTag lastDevelopTag =
     (let mainBase = (case parseSemver lastMainTag of None \<Rightarrow> defaultBase | Some v \<Rightarrow> v);
          build = (case matchDevPattern mainBase
                          (trim (case lastDevelopTag of None \<Rightarrow> [] | Some t \<Rightarrow> t)) of
                     None \<Rightarrow> 0
                   | Some m1 \<Rightarrow> toNumber m1)
      in (mainBase, build + 1))"

definition mk :: "string \<Rightarrow> nat \<Rightarrow> string" where
  \<comment> \<open>the arrow function \<^verbatim>\<open>mk\<close>, with \<^verbatim>\<open>baseVersion\<close> as an argument\<close>
  "mk baseVersion b = baseVersion @ ''-develop.'' @ numToString b"

section \<open>Uniqueness Prober\<close>

datatype error = InputRequired | TypeError

datatype exec_result = ExitCode int | Rejected

type_synonym exec = "string \<Rightarrow> string list \<Rightarrow> exec_result"

text \<open>
  \<^verbatim>\<open>exec\<close> of \<^verbatim>\<open>@actions/exec\<close> runs a command and resolves to its exit code or
  rejects. It is a parameter of the model: a function from the command line to the
  result, the same throughout one run (the queries are sequential, and the run itself
  creates no tag).
\<close>

definition tagExists :: "exec \<Rightarrow> string \<Rightarrow> bool" where
  "tagExists exec tag =
     (case exec ''git'' [''rev-parse'', ''refs/tags/'' @ tag] of
        Rejected \<Rightarrow> False
      | ExitCode exitCode \<Rightarrow> exitCode = 0)"

text \<open>
  The loop of \<^verbatim>\<open>bumpForUniqueness\<close> has no bound. The result None stands for a loop
  that does not end, \<open>Some (Inl e)\<close> for an exception of the advance function, which
  leaves the loop.
\<close>

partial_function (option) bumpForUniqueness ::
  "exec \<Rightarrow> (string \<Rightarrow> error + string) \<Rightarrow> string \<Rightarrow> (error + string) option" where
  "bumpForUniqueness exec bumpPatch v =
     (if tagExists exec v then
        (case bumpPatch v of
           Inl e \<Rightarrow> Some (Inl e)
         | Inr v' \<Rightarrow> bumpForUniqueness exec bumpPatch v')
      else Some (Inr v))"

declare bumpForUniqueness.simps [code]

definition bumpMain :: "string \<Rightarrow> error + string" where
  \<comment> \<open>the arrow function of the main branch; \<^verbatim>\<open>m[3]\<close> of a null match is a TypeError\<close>
  "bumpMain v =
     (case matchSemver v of
        None \<Rightarrow> Inl TypeError
      | Some (m1, m2, m3) \<Rightarrow>
         (let p = toNumber m3 + 1 in Inr (m1 @ ''.'' @ m2 @ ''.'' @ numToString p)))"

definition matchBuild :: "string \<Rightarrow> (string \<times> string) option" where
  \<comment> \<open>\<^verbatim>\<open>v.match(/^(.+?-develop\.)(\d+)$/)\<close>: the second group is the run of digits at
      the end, the first group is all before it, which must end with \<^verbatim>\<open>-develop.\<close> after
      at least one unit, none a line terminator\<close>
  "matchBuild v =
     (let ds = rev (takeWhile isDigit (rev v));
          pre = rev (dropWhile isDigit (rev v));
          n = length pre - 9
      in if ds \<noteq> [] \<and> 9 < length pre \<and> drop n pre = ''-develop.'' \<and>
            \<not> list_ex isLineTerminator (take n pre)
         then Some (pre, ds) else None)"

definition bumpDevelop :: "string \<Rightarrow> error + string" where
  \<comment> \<open>the arrow function of the other branches\<close>
  "bumpDevelop v =
     (case matchBuild v of
        None \<Rightarrow> Inl TypeError
      | Some (x1, x2) \<Rightarrow> Inr (x1 @ numToString (toNumber x2 + 1)))"

section \<open>Branch Strategy Dispatcher\<close>

record inputs =
  baseBranch :: string
  upgradeType :: string
  lastTag :: string
  lastMainTag :: string
  lastDevelopTag :: string

text \<open>
  The record holds the inputs as the workflow supplies them, the empty string for an
  input that is not supplied. \<^verbatim>\<open>core.getInput\<close> of the library \<^verbatim>\<open>@actions/core\<close>
  returns the input with surrounding white space removed, and throws when a required
  input is empty; \<open>getInputRequired\<close> is the call with \<^verbatim>\<open>{ required: true }\<close>.
\<close>

definition getInput :: "string \<Rightarrow> string" where
  "getInput val = trim val"

definition getInputRequired :: "string \<Rightarrow> error + string" where
  "getInputRequired val = (if val = [] then Inl InputRequired else Inr (trim val))"

datatype outcome = Version string | Failed error

definition finish :: "(error + string) option \<Rightarrow> outcome option" where
  \<comment> \<open>the end of \<^verbatim>\<open>run\<close>: \<^verbatim>\<open>setOutput\<close> of the version, or \<^verbatim>\<open>setFailed\<close> in the catch
      clause; None when the loop does not end\<close>
  "finish r =
     (case r of
        None \<Rightarrow> None
      | Some (Inl e) \<Rightarrow> Some (Failed e)
      | Some (Inr newVersion) \<Rightarrow> Some (Version newVersion))"

definition mainLine :: "exec \<Rightarrow> upgrade \<Rightarrow> string \<Rightarrow> outcome option" where
  \<comment> \<open>\<^verbatim>\<open>run\<close>, the branch \<^verbatim>\<open>baseBranch === "main"\<close>, from the normalized upgrade type and
      \<^verbatim>\<open>lastTag\<close>\<close>
  "mainLine exec ut lt =
     (let next = nextMainVersion (Some lt) ut;
          newVersion = formatSemver next
      in finish (bumpForUniqueness exec bumpMain newVersion))"

definition preRelease :: "exec \<Rightarrow> string \<Rightarrow> string \<Rightarrow> outcome option" where
  \<comment> \<open>\<^verbatim>\<open>run\<close>, the code after that branch, from \<^verbatim>\<open>lastMainTag\<close> and \<^verbatim>\<open>lastDevelopTag\<close>\<close>
  "preRelease exec lmt ldt =
     (case computeNextPreReleaseVersion (Some lmt) (Some ldt) of
        (mainBase, build) \<Rightarrow>
          (let baseVersion = formatSemver mainBase;
               newVersion = mk baseVersion build
           in finish (bumpForUniqueness exec bumpDevelop newVersion)))"

definition run :: "inputs \<Rightarrow> exec \<Rightarrow> outcome option" where
  \<comment> \<open>the locals \<^verbatim>\<open>baseBranch\<close>, \<^verbatim>\<open>upgradeType\<close>, \<^verbatim>\<open>lastTag\<close>, \<^verbatim>\<open>lastMainTag\<close> and
      \<^verbatim>\<open>lastDevelopTag\<close> are \<open>bb\<close>, \<open>ut\<close>, \<open>lt\<close>, \<open>lmt\<close> and \<open>ldt\<close>\<close>
  "run i exec =
     (case getInputRequired (baseBranch i) of
        Inl e \<Rightarrow> Some (Failed e)
      | Inr b \<Rightarrow>
         (let bb = trim b;
              ut = normalizeUpgradeType (Some (getInput (upgradeType i)));
              lt = getInput (lastTag i);
              lmt = getInput (lastMainTag i);
              ldt = getInput (lastDevelopTag i)
          in if bb = ''main'' then mainLine exec ut lt else preRelease exec lmt ldt))"

definition tagStore :: "string list \<Rightarrow> exec" where
  \<comment> \<open>a tag store for the examples, a repository with the given tags: \<^verbatim>\<open>git rev-parse\<close>
      exits with 0 on a tag it has and fails on any other, which \<^verbatim>\<open>exec\<close> turns into a
      rejection\<close>
  "tagStore tags cmd args =
     (if cmd = ''git'' \<and> list_ex (\<lambda>t. args = [''rev-parse'', ''refs/tags/'' @ t]) tags
      then ExitCode 0 else Rejected)"

section \<open>Notions of the specification\<close>


section \<open>Digits and numerals\<close>







lemma dot_not_digit: "\<not> isDigit (CHR ''.'')"
  by (simp add: isDigit_def)












section \<open>Trimming and upper-casing\<close>

lemma dropWhile_trim: "dropWhile isWhiteSpace (trim s) = trim s"
proof (cases "trim s = []")
  case True
  then show ?thesis by simp
next
  case False
  define t where "t = dropWhile isWhiteSpace s"
  have "rev (dropWhile isWhiteSpace (rev t)) @ rev (takeWhile isWhiteSpace (rev t)) =
      rev (takeWhile isWhiteSpace (rev t) @ dropWhile isWhiteSpace (rev t))"
    by (simp only: rev_append)
  also have "\<dots> = t"
    by (simp only: takeWhile_dropWhile_id rev_rev_ident)
  finally have t: "t = trim s @ rev (takeWhile isWhiteSpace (rev t))"
    by (simp add: trim_def t_def)
  with False have "t \<noteq> []" by auto
  then have "\<not> isWhiteSpace (hd t)"
    unfolding t_def by (rule hd_dropWhile)
  moreover from t False have "hd t = hd (trim s)"
    by (metis hd_append2)
  ultimately have "\<not> isWhiteSpace (hd (trim s))" by simp
  with False show ?thesis by (cases "trim s") simp_all
qed

lemma trim_trim: "trim (trim s) = trim s"
proof -
  have "dropWhile isWhiteSpace (rev (trim s)) = rev (trim s)"
    by (simp add: trim_def)
  then have "rev (dropWhile isWhiteSpace (rev (trim s))) = trim s"
    by simp
  then show ?thesis
    by (simp add: trim_def [of "trim s"] dropWhile_trim)
qed

lemma trim_Nil: "trim [] = []"
  by (simp add: trim_def)

lemma toUpperCase_trim_PATCH: "toUpperCase (trim ''PATCH'') = ''PATCH''"
  by code_simp

lemma toUpperCase_trim_Nil: "toUpperCase (trim []) = []"
  by (simp add: trim_def toUpperCase_def)


lemma normalizeUpgradeType_Some:
  "normalizeUpgradeType (Some u) =
     (if toUpperCase (trim u) = ''MAJOR'' then MAJOR
      else if toUpperCase (trim u) = ''MINOR'' then MINOR else PATCH)"
  by (cases "u = []")
    (simp_all add: normalizeUpgradeType_def toUpperCase_trim_PATCH toUpperCase_trim_Nil)

section \<open>The regular expressions\<close>

lemma isNumeral_takeWhile: "takeWhile isDigit s \<noteq> [] \<Longrightarrow> isNumeral (takeWhile isDigit s)"
  by (auto simp: isNumeral_def list_all_iff dest: set_takeWhileD)

lemma digits1_numeral:
  "isNumeral d \<Longrightarrow> \<not> isDigit x \<Longrightarrow> digits1 (d @ x # r) = Some (d, x # r)"
  by (simp add: digits1_def isNumeral_def list_all_iff takeWhile_append2 dropWhile_append2)

lemma digits1_numeral_end:
  assumes "isNumeral d"
  shows "digits1 d = Some (d, [])"
proof -
  from assms have tw: "takeWhile isDigit d = d" and dw: "dropWhile isDigit d = []"
    and ne: "d \<noteq> []"
    by (simp_all add: isNumeral_def list_all_iff)
  show ?thesis by (simp add: digits1_def tw dw ne)
qed

lemma digits1_SomeD:
  "digits1 s = Some (d, r) \<Longrightarrow> isNumeral d \<and> s = d @ r"
  by (auto simp: digits1_def Let_def isNumeral_takeWhile split: if_splits)

lemma matchSemver_shape:
  "isNumeral a \<Longrightarrow> isNumeral b \<Longrightarrow> isNumeral c \<Longrightarrow>
     matchSemver (a @ ''.'' @ b @ ''.'' @ c) = Some (a, b, c)"
  by (simp add: matchSemver_def digits1_numeral digits1_numeral_end dot_not_digit)

lemma matchSemver_SomeD:
  assumes "matchSemver s = Some (a, b, c)"
  shows "isNumeral a \<and> isNumeral b \<and> isNumeral c \<and> s = a @ ''.'' @ b @ ''.'' @ c"
  using assms
  by (auto simp: matchSemver_def split: option.splits list.splits if_splits dest!: digits1_SomeD)

lemma parseSemver_shape:
  assumes "isNumeral a" "isNumeral b" "isNumeral c" "trim s = a @ ''.'' @ b @ ''.'' @ c"
  shows "parseSemver (Some s) = Some \<lparr>major = toNumber a, minor = toNumber b, patch = toNumber c\<rparr>"
proof -
  from assms(4) have "s \<noteq> []" by (auto simp: trim_Nil)
  moreover from assms matchSemver_shape [of a b c]
  have "matchSemver (trim s) = Some (a, b, c)"
    by simp
  ultimately show ?thesis by (simp add: parseSemver_def)
qed

lemma parseSemver_SomeD:
  assumes "parseSemver (Some s) = Some v"
  shows "\<exists>a b c. isNumeral a \<and> isNumeral b \<and> isNumeral c \<and> trim s = a @ ''.'' @ b @ ''.'' @ c"
proof -
  from assms obtain a b c where "matchSemver (trim s) = Some (a, b, c)"
    by (auto simp: parseSemver_def split: if_splits option.splits)
  then show ?thesis by (blast dest: matchSemver_SomeD)
qed











section \<open>The uniqueness loop\<close>

lemma bumpForUniqueness_free:
  "\<not> tagExists exec v \<Longrightarrow> bumpForUniqueness exec bumpPatch v = Some (Inr v)"
  by (subst bumpForUniqueness.simps) simp

lemma bumpForUniqueness_step:
  "tagExists exec v \<Longrightarrow> bumpPatch v = Inr v' \<Longrightarrow>
     bumpForUniqueness exec bumpPatch v = bumpForUniqueness exec bumpPatch v'"
  by (subst bumpForUniqueness.simps) simp

lemma bumpForUniqueness_throw:
  "tagExists exec v \<Longrightarrow> bumpPatch v = Inl e \<Longrightarrow>
     bumpForUniqueness exec bumpPatch v = Some (Inl e)"
  by (subst bumpForUniqueness.simps) simp

lemma bumpForUniqueness_sequence:
  assumes "\<not> tagExists exec (g n)"
    and "\<forall>m<n. tagExists exec (g m) \<and> bumpPatch (g m) = Inr (g (Suc m))"
  shows "bumpForUniqueness exec bumpPatch (g 0) = Some (Inr (g n))"
  using assms
proof (induction n arbitrary: g)
  case 0
  then show ?case by (simp add: bumpForUniqueness_free)
next
  case (Suc n)
  from Suc.prems(2) have first: "tagExists exec (g 0)" "bumpPatch (g 0) = Inr (g (Suc 0))"
    by auto
  have "bumpForUniqueness exec bumpPatch ((g \<circ> Suc) 0) = Some (Inr ((g \<circ> Suc) n))"
  proof (rule Suc.IH)
    show "\<not> tagExists exec ((g \<circ> Suc) n)"
      using Suc.prems(1) by simp
    show "\<forall>m<n. tagExists exec ((g \<circ> Suc) m) \<and> bumpPatch ((g \<circ> Suc) m) = Inr ((g \<circ> Suc) (Suc m))"
      using Suc.prems(2) by simp
  qed
  with first show ?case
    by (simp add: bumpForUniqueness_step [of exec "g 0" bumpPatch "g (Suc 0)"])
qed

lemma bumpForUniqueness_Some_off_cycle:
  assumes "bumpForUniqueness exec bumpPatch v = Some y"
  shows "(\<forall>m. tagExists exec (g m) \<and> bumpPatch (g m) = Inr (g (Suc m))) \<longrightarrow> (\<forall>j. v \<noteq> g j)"
proof (rule bumpForUniqueness.raw_induct
    [where P = "\<lambda>e b v y. (\<forall>m. tagExists e (g m) \<and> b (g m) = Inr (g (Suc m))) \<longrightarrow> (\<forall>j. v \<noteq> g j)",
      OF _ assms])
  fix bfu e b w z
  assume IH: "\<And>e' b' w' z'. bfu e' b' w' = Some z' \<Longrightarrow>
      (\<forall>m. tagExists e' (g m) \<and> b' (g m) = Inr (g (Suc m))) \<longrightarrow> (\<forall>j. w' \<noteq> g j)"
    and body: "(if tagExists e w
         then case b w of Inl err \<Rightarrow> Some (Inl err) | Inr w' \<Rightarrow> bfu e b w'
         else Some (Inr w)) = Some z"
  show "(\<forall>m. tagExists e (g m) \<and> b (g m) = Inr (g (Suc m))) \<longrightarrow> (\<forall>j. w \<noteq> g j)"
  proof (intro impI allI notI)
    fix j
    assume cyc: "\<forall>m. tagExists e (g m) \<and> b (g m) = Inr (g (Suc m))"
      and w: "w = g j"
    then have "tagExists e w" and "b w = Inr (g (Suc j))"
      by auto
    with body have "bfu e b (g (Suc j)) = Some z" by simp
    with IH cyc have "\<forall>i. g (Suc j) \<noteq> g i" by blast
    then show False by blast
  qed
qed

lemma bumpForUniqueness_diverges:
  assumes "\<forall>m. tagExists exec (g m) \<and> bumpPatch (g m) = Inr (g (Suc m))"
  shows "bumpForUniqueness exec bumpPatch (g k) = None"
proof (cases "bumpForUniqueness exec bumpPatch (g k)")
  case None
  then show ?thesis .
next
  case (Some y)
  with assms bumpForUniqueness_Some_off_cycle [of exec bumpPatch "g k" y g]
  show ?thesis by blast
qed

section \<open>The two paths of the run\<close>

lemma getInputRequired_Inr: "val \<noteq> [] \<Longrightarrow> getInputRequired val = Inr (trim val)"
  by (simp add: getInputRequired_def)

lemma run_dispatch:
  "baseBranch i \<noteq> [] \<Longrightarrow>
     run i exec =
       (if trim (baseBranch i) = ''main''
        then mainLine exec (normalizeUpgradeType (Some (trim (upgradeType i)))) (trim (lastTag i))
        else preRelease exec (trim (lastMainTag i)) (trim (lastDevelopTag i)))"
  by (simp add: run_def getInputRequired_Inr getInput_def trim_trim Let_def)

lemma run_missing: "baseBranch i = [] \<Longrightarrow> run i exec = Some (Failed InputRequired)"
  by (simp add: run_def getInputRequired_def)






section \<open>Properties of the specification\<close>

subsection \<open>Main-line versions\<close>



subsection \<open>Pre-release versions\<close>




subsection \<open>The first free candidate\<close>

text \<open>
  C3: for every candidate and every advance function, when some iterate of advance on
  the candidate is not in the tag store, resolveUnique returns, and its result is the
  first element of the sequence candidate, advance(candidate), ... for which tagExists
  is false; when every iterate is in the store, it does not return. With the tags 1.2.1
  and 1.2.2 in the store and the candidate 1.2.1 of the main line, the result is 1.2.3.
\<close>

theorem bumpForUniqueness_first_free:
  "((\<exists>n. \<not> tagExists exec ((advance ^^ n) candidate)) \<longrightarrow>
      (\<exists>n. bumpForUniqueness exec (\<lambda>v. Inr (advance v)) candidate =
              Some (Inr ((advance ^^ n) candidate)) \<and>
           \<not> tagExists exec ((advance ^^ n) candidate) \<and>
           (\<forall>m<n. tagExists exec ((advance ^^ m) candidate)))) \<and>
   ((\<forall>n. tagExists exec ((advance ^^ n) candidate)) \<longrightarrow>
      bumpForUniqueness exec (\<lambda>v. Inr (advance v)) candidate = None) \<and>
   bumpForUniqueness (tagStore [''1.2.1'', ''1.2.2'']) bumpMain ''1.2.1'' = Some (Inr ''1.2.3'')"
proof (intro conjI impI)
  let ?g = "\<lambda>n. (advance ^^ n) candidate"
  assume "\<exists>n. \<not> tagExists exec ((advance ^^ n) candidate)"
  then obtain n where free: "\<not> tagExists exec (?g n)"
    and least: "\<forall>m<n. tagExists exec (?g m)"
    using exists_least_iff [of "\<lambda>n. \<not> tagExists exec (?g n)"] by auto
  from least have "\<forall>m<n. tagExists exec (?g m) \<and> (\<lambda>v. Inr (advance v)) (?g m) = Inr (?g (Suc m))"
    by simp
  with free have "bumpForUniqueness exec (\<lambda>v. Inr (advance v)) (?g 0) = Some (Inr (?g n))"
    by (rule bumpForUniqueness_sequence [where g = ?g])
  with free least show "\<exists>n. bumpForUniqueness exec (\<lambda>v. Inr (advance v)) candidate =
              Some (Inr ((advance ^^ n) candidate)) \<and>
           \<not> tagExists exec ((advance ^^ n) candidate) \<and>
           (\<forall>m<n. tagExists exec ((advance ^^ m) candidate))"
    by auto
next
  let ?g = "\<lambda>n. (advance ^^ n) candidate"
  assume "\<forall>n. tagExists exec ((advance ^^ n) candidate)"
  then have "\<forall>m. tagExists exec (?g m) \<and> (\<lambda>v. Inr (advance v)) (?g m) = Inr (?g (Suc m))"
    by simp
  then have "bumpForUniqueness exec (\<lambda>v. Inr (advance v)) (?g 0) = None"
    by (rule bumpForUniqueness_diverges [where g = ?g])
  then show "bumpForUniqueness exec (\<lambda>v. Inr (advance v)) candidate = None"
    by simp
next
  show "bumpForUniqueness (tagStore [''1.2.1'', ''1.2.2'']) bumpMain ''1.2.1'' = Some (Inr ''1.2.3'')"
    by code_simp
qed

theorem bumpForUniqueness_first_free_witness:
  "bumpForUniqueness (tagStore [''a'', ''ab'']) (\<lambda>v. Inr (v @ ''b'')) ''a'' = Some (Inr ''abb'')"
proof -
  let ?exec = "tagStore [''a'', ''ab'']"
  let ?adv = "\<lambda>v. v @ ''b''"
  have it: "(?adv ^^ 0) ''a'' = ''a''" "(?adv ^^ 1) ''a'' = ''ab''" "(?adv ^^ 2) ''a'' = ''abb''"
    by (simp_all add: numeral_2_eq_2)
  have ex: "tagExists ?exec ''a''" "tagExists ?exec ''ab''" "\<not> tagExists ?exec ''abb''"
    by code_simp+
  from ex(3) it(3) have "\<exists>n. \<not> tagExists ?exec ((?adv ^^ n) ''a'')"
    by metis
  with bumpForUniqueness_first_free [of ?exec ?adv "''a''"]
  obtain n where res: "bumpForUniqueness ?exec (\<lambda>v. Inr (?adv v)) ''a'' = Some (Inr ((?adv ^^ n) ''a''))"
    and free: "\<not> tagExists ?exec ((?adv ^^ n) ''a'')"
    and least: "\<forall>m<n. tagExists ?exec ((?adv ^^ m) ''a'')"
    by blast
  from least ex(3) it(3) have "\<not> 2 < n" by metis
  moreover from free ex(1) it(1) have "n \<noteq> 0" by metis
  moreover from free ex(2) it(2) have "n \<noteq> 1" by metis
  ultimately have "n = 2" by arith
  with res it(3) show ?thesis by simp
qed

subsection \<open>Failing queries\<close>

text \<open>
  C4: when the query of the tag store fails (the command is rejected), tagExists is
  false: the failure is no error of the caller, and the uniqueness loop accepts the
  candidate as it is.
\<close>

theorem tagExists_fails_open:
  "exec ''git'' [''rev-parse'', ''refs/tags/'' @ tag] = Rejected \<Longrightarrow>
     \<not> tagExists exec tag \<and> bumpForUniqueness exec bumpPatch tag = Some (Inr tag)"
  by (simp add: tagExists_def bumpForUniqueness_free)

theorem tagExists_fails_open_witness:
  "\<not> tagExists (\<lambda>cmd args. Rejected) ''1.0.0'' \<and>
   bumpForUniqueness (\<lambda>cmd args. Rejected) bumpMain ''1.0.0'' = Some (Inr ''1.0.0'')"
proof -
  have "(\<lambda>cmd args. Rejected) ''git'' [''rev-parse'', ''refs/tags/'' @ ''1.0.0''] = Rejected"
    by simp
  then show ?thesis by (rule tagExists_fails_open)
qed

subsection \<open>What the parser accepts\<close>

text \<open>
  C5 (as the code has it): parseVersion accepts a string exactly when the string, with
  surrounding white space removed, is three non-empty runs of decimal digits separated
  by dots. Leading zeros are accepted and lost in the numbers: the text 01.2.3 parses to
  the version 1, 2, 3.
\<close>

theorem parseSemver_accepts_digit_runs:
  "(parseSemver (Some s) \<noteq> None) =
     (\<exists>a b c. isNumeral a \<and> isNumeral b \<and> isNumeral c \<and> trim s = a @ ''.'' @ b @ ''.'' @ c) \<and>
   (\<forall>a b c. isNumeral a \<and> isNumeral b \<and> isNumeral c \<and> trim s = a @ ''.'' @ b @ ''.'' @ c \<longrightarrow>
      parseSemver (Some s) = Some \<lparr>major = toNumber a, minor = toNumber b, patch = toNumber c\<rparr>) \<and>
   parseSemver (Some ''01.2.3'') = Some \<lparr>major = 1, minor = 2, patch = 3\<rparr>"
proof (intro conjI)
  show "(parseSemver (Some s) \<noteq> None) =
     (\<exists>a b c. isNumeral a \<and> isNumeral b \<and> isNumeral c \<and> trim s = a @ ''.'' @ b @ ''.'' @ c)"
  proof
    assume "parseSemver (Some s) \<noteq> None"
    then obtain v where "parseSemver (Some s) = Some v" by auto
    then show "\<exists>a b c. isNumeral a \<and> isNumeral b \<and> isNumeral c \<and> trim s = a @ ''.'' @ b @ ''.'' @ c"
      by (rule parseSemver_SomeD)
  next
    assume "\<exists>a b c. isNumeral a \<and> isNumeral b \<and> isNumeral c \<and> trim s = a @ ''.'' @ b @ ''.'' @ c"
    then show "parseSemver (Some s) \<noteq> None"
      by (auto simp: parseSemver_shape)
  qed
  show "\<forall>a b c. isNumeral a \<and> isNumeral b \<and> isNumeral c \<and> trim s = a @ ''.'' @ b @ ''.'' @ c \<longrightarrow>
      parseSemver (Some s) = Some \<lparr>major = toNumber a, minor = toNumber b, patch = toNumber c\<rparr>"
    by (auto simp: parseSemver_shape)
  show "parseSemver (Some ''01.2.3'') = Some \<lparr>major = 1, minor = 2, patch = 3\<rparr>"
    by code_simp
qed

theorem parseSemver_accepts_digit_runs_witness:
  "parseSemver (Some '' 1.020.3 '') = Some \<lparr>major = 1, minor = 20, patch = 3\<rparr>"
proof -
  have n: "isNumeral ''1''" "isNumeral ''020''" "isNumeral ''3''"
    by code_simp+
  have t: "trim '' 1.020.3 '' = ''1'' @ ''.'' @ ''020'' @ ''.'' @ ''3''"
    by code_simp
  have v: "toNumber ''1'' = 1" "toNumber ''020'' = 20" "toNumber ''3'' = 3"
    by code_simp+
  from parseSemver_accepts_digit_runs [of "'' 1.020.3 ''"] n t
  have "parseSemver (Some '' 1.020.3 '') =
      Some \<lparr>major = toNumber ''1'', minor = toNumber ''020'', patch = toNumber ''3''\<rparr>"
    by blast
  then show ?thesis by (simp only: v)
qed

theorem parseSemver_leading_zero_counterexample:
  "parseSemver (Some ''01.2.3'') \<noteq> None"
  by code_simp

subsection \<open>Parsing and formatting\<close>




subsection \<open>Dispatch on the branch\<close>




subsection \<open>Inputs a path does not read\<close>

text \<open>
  C8 (as the code has it): when the trimmed baseBranch is main, two runs that agree on
  baseBranch, upgradeType, lastTag and the tag store have the same outcome, whatever
  their lastMainTag and lastDevelopTag; when the trimmed baseBranch is anything else,
  two runs that agree on baseBranch, lastMainTag, lastDevelopTag and the tag store have
  the same outcome, whatever their lastTag and upgradeType.
\<close>

theorem run_ignores_unused_inputs:
  "(trim (baseBranch i) = ''main'' \<and> baseBranch j = baseBranch i \<and>
      upgradeType j = upgradeType i \<and> lastTag j = lastTag i \<longrightarrow> run i exec = run j exec) \<and>
   (trim (baseBranch i) \<noteq> ''main'' \<and> baseBranch j = baseBranch i \<and>
      lastMainTag j = lastMainTag i \<and> lastDevelopTag j = lastDevelopTag i \<longrightarrow>
        run i exec = run j exec)"
proof (cases "baseBranch i = []")
  case True
  then have "trim (baseBranch i) \<noteq> ''main''" by (simp add: trim_Nil)
  with True show ?thesis by (auto simp: run_missing)
next
  case False
  then show ?thesis by (auto simp: run_dispatch)
qed

theorem run_ignores_unused_inputs_witness:
  "run \<lparr>baseBranch = ''main'', upgradeType = ''MAJOR'', lastTag = ''1.4.2'', lastMainTag = ''9.9.9'',
        lastDevelopTag = ''9.9.9-develop.9''\<rparr> (tagStore [''2.0.0'']) =
   run \<lparr>baseBranch = ''main'', upgradeType = ''MAJOR'', lastTag = ''1.4.2'', lastMainTag = '''',
        lastDevelopTag = ''''\<rparr> (tagStore [''2.0.0'']) \<and>
   run \<lparr>baseBranch = ''develop'', upgradeType = ''MAJOR'', lastTag = ''1.4.2'', lastMainTag = ''1.4.2'',
        lastDevelopTag = ''1.4.2-develop.7''\<rparr> (tagStore [''2.0.0'']) =
   run \<lparr>baseBranch = ''develop'', upgradeType = '''', lastTag = ''0.0.1'', lastMainTag = ''1.4.2'',
        lastDevelopTag = ''1.4.2-develop.7''\<rparr> (tagStore [''2.0.0''])"
proof -
  let ?i = "\<lparr>baseBranch = ''main'', upgradeType = ''MAJOR'', lastTag = ''1.4.2'',
      lastMainTag = ''9.9.9'', lastDevelopTag = ''9.9.9-develop.9''\<rparr>"
  let ?j = "\<lparr>baseBranch = ''main'', upgradeType = ''MAJOR'', lastTag = ''1.4.2'',
      lastMainTag = '''', lastDevelopTag = ''''\<rparr>"
  let ?k = "\<lparr>baseBranch = ''develop'', upgradeType = ''MAJOR'', lastTag = ''1.4.2'',
      lastMainTag = ''1.4.2'', lastDevelopTag = ''1.4.2-develop.7''\<rparr>"
  let ?l = "\<lparr>baseBranch = ''develop'', upgradeType = '''', lastTag = ''0.0.1'',
      lastMainTag = ''1.4.2'', lastDevelopTag = ''1.4.2-develop.7''\<rparr>"
  have t1: "trim ''main'' = ''main''" and t2: "trim ''develop'' \<noteq> ''main''"
    by code_simp+
  from t1 have h1: "trim (baseBranch ?i) = ''main'' \<and> baseBranch ?j = baseBranch ?i \<and>
      upgradeType ?j = upgradeType ?i \<and> lastTag ?j = lastTag ?i"
    by simp
  from t2 have h2: "trim (baseBranch ?k) \<noteq> ''main'' \<and> baseBranch ?l = baseBranch ?k \<and>
      lastMainTag ?l = lastMainTag ?k \<and> lastDevelopTag ?l = lastDevelopTag ?k"
    by simp
  have "run ?i (tagStore [''2.0.0'']) = run ?j (tagStore [''2.0.0''])"
    by (rule run_ignores_unused_inputs [of ?i ?j, THEN conjunct1, THEN mp, OF h1])
  moreover have "run ?k (tagStore [''2.0.0'']) = run ?l (tagStore [''2.0.0''])"
    by (rule run_ignores_unused_inputs [of ?k ?l, THEN conjunct2, THEN mp, OF h2])
  ultimately show ?thesis by (intro conjI)
qed

theorem run_ignores_unused_inputs_counterexample:
  "run \<lparr>baseBranch = '' main'', upgradeType = '''', lastTag = ''1.0.0'', lastMainTag = '''',
        lastDevelopTag = ''''\<rparr> (tagStore []) = Some (Version ''1.0.1'') \<and>
   run \<lparr>baseBranch = '' main'', upgradeType = '''', lastTag = ''2.0.0'', lastMainTag = '''',
        lastDevelopTag = ''''\<rparr> (tagStore []) = Some (Version ''2.0.1'') \<and>
   '' main'' \<noteq> ''main''"
  by code_simp

subsection \<open>Absent versions and the default upgrade\<close>

text \<open>
  C9: parseVersion is a total function into an optional version. It returns absent on
  null or undefined, on the empty string, and on every string whose trimmed form is not
  three dot-separated runs of digits (a pre-release suffix, extra characters, too few or
  too many components). The upgrade type is the upper-cased trimmed text when that is
  MAJOR or MINOR, and PATCH for every other text and for a missing one.
\<close>

theorem parseSemver_absent_normalize_default:
  "parseSemver None = None \<and> parseSemver (Some []) = None \<and>
   ((\<nexists>a b c. isNumeral a \<and> isNumeral b \<and> isNumeral c \<and> trim s = a @ ''.'' @ b @ ''.'' @ c) \<longrightarrow>
      parseSemver (Some s) = None) \<and>
   parseSemver (Some ''1.2.3-develop.4'') = None \<and>
   parseSemver (Some ''1.2.3 extra'') = None \<and>
   parseSemver (Some ''v1.2.3'') = None \<and>
   parseSemver (Some ''1.2'') = None \<and>
   parseSemver (Some ''1.2.3.4'') = None \<and>
   parseSemver (Some ''1,2,3'') = None \<and>
   (toUpperCase (trim u) = ''MAJOR'' \<longrightarrow> normalizeUpgradeType (Some u) = MAJOR) \<and>
   (toUpperCase (trim u) = ''MINOR'' \<longrightarrow> normalizeUpgradeType (Some u) = MINOR) \<and>
   (toUpperCase (trim u) \<noteq> ''MAJOR'' \<and> toUpperCase (trim u) \<noteq> ''MINOR'' \<longrightarrow>
      normalizeUpgradeType (Some u) = PATCH) \<and>
   normalizeUpgradeType None = PATCH \<and>
   normalizeUpgradeType (Some ''major'') = MAJOR \<and>
   normalizeUpgradeType (Some ''Minor'') = MINOR \<and>
   normalizeUpgradeType (Some ''garbage'') = PATCH"
proof -
  have absent: "parseSemver None = None" "parseSemver (Some []) = None"
    by (simp_all add: parseSemver_def)
  have mismatch: "(\<nexists>a b c. isNumeral a \<and> isNumeral b \<and> isNumeral c \<and>
      trim s = a @ ''.'' @ b @ ''.'' @ c) \<longrightarrow> parseSemver (Some s) = None"
    using parseSemver_SomeD [of s] by (cases "parseSemver (Some s)") auto
  have examples: "parseSemver (Some ''1.2.3-develop.4'') = None"
    "parseSemver (Some ''1.2.3 extra'') = None"
    "parseSemver (Some ''v1.2.3'') = None"
    "parseSemver (Some ''1.2'') = None"
    "parseSemver (Some ''1.2.3.4'') = None"
    "parseSemver (Some ''1,2,3'') = None"
    by code_simp+
  have kinds: "toUpperCase (trim u) = ''MAJOR'' \<longrightarrow> normalizeUpgradeType (Some u) = MAJOR"
    "toUpperCase (trim u) = ''MINOR'' \<longrightarrow> normalizeUpgradeType (Some u) = MINOR"
    "toUpperCase (trim u) \<noteq> ''MAJOR'' \<and> toUpperCase (trim u) \<noteq> ''MINOR'' \<longrightarrow>
      normalizeUpgradeType (Some u) = PATCH"
    by (simp_all add: normalizeUpgradeType_Some)
  have more: "normalizeUpgradeType None = PATCH"
    "normalizeUpgradeType (Some ''major'') = MAJOR"
    "normalizeUpgradeType (Some ''Minor'') = MINOR"
    "normalizeUpgradeType (Some ''garbage'') = PATCH"
    by code_simp+
  from absent mismatch examples kinds more show ?thesis by blast
qed

theorem parseSemver_absent_normalize_default_witness:
  "parseSemver (Some ''1.2.x'') = None \<and> normalizeUpgradeType (Some '' mAjOr '') = MAJOR \<and>
   normalizeUpgradeType (Some ''minor'') = MINOR \<and> normalizeUpgradeType (Some ''patchy'') = PATCH"
proof -
  have "parseSemver (Some ''1.2.x'') = None" by code_simp
  with parseSemver_shape [where s = "''1.2.x''"]
  have h1: "\<nexists>a b c. isNumeral a \<and> isNumeral b \<and> isNumeral c \<and>
      trim ''1.2.x'' = a @ ''.'' @ b @ ''.'' @ c"
    by auto
  have h2: "toUpperCase (trim '' mAjOr '') = ''MAJOR''" by code_simp
  have h3: "toUpperCase (trim ''minor'') = ''MINOR''" by code_simp
  have h4: "toUpperCase (trim ''patchy'') \<noteq> ''MAJOR'' \<and> toUpperCase (trim ''patchy'') \<noteq> ''MINOR''"
    by code_simp
  from h1 parseSemver_absent_normalize_default [of "''1.2.x''" u]
  have "parseSemver (Some ''1.2.x'') = None" by blast
  moreover from h2 parseSemver_absent_normalize_default [of s "'' mAjOr ''"]
  have "normalizeUpgradeType (Some '' mAjOr '') = MAJOR" by blast
  moreover from h3 parseSemver_absent_normalize_default [of s "''minor''"]
  have "normalizeUpgradeType (Some ''minor'') = MINOR" by blast
  moreover from h4 parseSemver_absent_normalize_default [of s "''patchy''"]
  have "normalizeUpgradeType (Some ''patchy'') = PATCH" by blast
  ultimately show ?thesis by blast
qed

subsection \<open>The shape of pre-release versions\<close>



end
